theory Spec2Isabelle
  imports Complex_Main "HOL-Library.Sublist"
begin

section \<open>Python strings and the parts of the standard library the program calls\<close>

text \<open>
  A Python \<open>str\<close> is a sequence of Unicode code points; a code point is a natural number.
  ASCII literals of the source are written through \<open>u\<close>.
\<close>

type_synonym ustr = "nat list"

definition u :: "string \<Rightarrow> ustr" where
  "u s = map of_char s"

text \<open>
  Three properties of code points are tables of the Unicode database that are far larger
  than the program: \<open>str.lower()\<close>, \<open>str.isalnum()\<close> (behind \<open>\w\<close> and
  \<open>\b\<close>) and the decimal digits (behind \<open>\d\<close>). They are taken as a parameter of
  every function that depends on them, so a theorem stated for every \<open>U\<close> holds for
  CPython's tables whatever they contain.
\<close>

record tables =
  str_lower :: "ustr \<Rightarrow> ustr"
  is_alnum :: "nat \<Rightarrow> bool"
  is_decimal :: "nat \<Rightarrow> bool"

text \<open>
  \<open>str.isspace\<close>, which is also \<open>\s\<close> of a \<open>str\<close> pattern: U+0009..000D,
  U+001C..0020, U+0085, U+00A0, U+1680, U+2000..200A, U+2028, U+2029, U+202F, U+205F,
  U+3000.
\<close>

definition is_space :: "nat \<Rightarrow> bool" where
  "is_space c \<longleftrightarrow>
     (9 \<le> c \<and> c \<le> 13) \<or> (28 \<le> c \<and> c \<le> 32) \<or> c = 133 \<or> c = 160 \<or> c = 5760 \<or>
     (8192 \<le> c \<and> c \<le> 8202) \<or> c = 8232 \<or> c = 8233 \<or> c = 8239 \<or> c = 8287 \<or> c = 12288"

text \<open>\<open>s.strip()\<close> with no argument.\<close>

definition py_strip :: "ustr \<Rightarrow> ustr" where
  "py_strip s = rev (dropWhile is_space (rev (dropWhile is_space s)))"

text \<open>\<open>s.replace(c, '')\<close> for a one-character \<open>c\<close>.\<close>

definition py_remove :: "nat \<Rightarrow> ustr \<Rightarrow> ustr" where
  "py_remove c s = filter (\<lambda>x. x \<noteq> c) s"

definition is_word :: "tables \<Rightarrow> nat \<Rightarrow> bool" where
  "is_word U c \<longleftrightarrow> is_alnum U c \<or> c = 95"

subsection \<open>Regular expressions of the \<open>re\<close> module\<close>

text \<open>
  The patterns of the program use literals, classes, \<open>.\<close>, \<open>\s\<close>, \<open>\d\<close>, \<open>\b\<close>,
  \<open>^\<close>, \<open>$\<close>, greedy and lazy repetition, alternation, capture groups, a lookahead and
  a one-class negative lookbehind.  The matcher below is the backtracking search of
  \<open>re\<close>: it explores the alternatives in the priority order of the engine and returns
  the first that succeeds.
\<close>

datatype citem = Ch nat | Rg nat nat | CSpace | CDigit

datatype rx =
    Sym "citem list"
  | NSym "citem list"
  | Dot
  | Bol
  | Eol
  | WordB
  | Eps
  | Seq rx rx
  | Alt rx rx
  | Rep bool nat "nat option" rx
  | Grp nat rx
  | Ahead rx
  | NotBehind "citem list"

text \<open>
  \<open>re.IGNORECASE\<close> on a \<open>str\<close> pattern compares lower-cased code points and adds the
  engine's equivalents.  For the literals and classes of this program's case-insensitive
  patterns the code points outside a class that still match it are: U+0130 and U+0131
  (with i), U+017F (with s), U+212A (with k), and U+1C80..U+1C87 (with the Cyrillic
  letters U+0432, U+0434, U+043E, U+0441, U+0442, U+044A, U+0463).  The CJK, kana and
  hangul classes are closed under case mapping.
\<close>

definition fold_cp :: "nat \<Rightarrow> nat" where
  "fold_cp c =
     (if 65 \<le> c \<and> c \<le> 90 then c + 32
      else if c = 0x130 \<or> c = 0x131 then 105
      else if c = 0x17F then 115
      else if c = 0x212A then 107
      else if c = 0x1C80 then 0x432
      else if c = 0x1C81 then 0x434
      else if c = 0x1C82 then 0x43E
      else if c = 0x1C83 then 0x441
      else if c = 0x1C84 \<or> c = 0x1C85 then 0x442
      else if c = 0x1C86 then 0x44A
      else if c = 0x1C87 then 0x463
      else c)"

fun item_match :: "tables \<Rightarrow> bool \<Rightarrow> citem \<Rightarrow> nat \<Rightarrow> bool" where
  "item_match U ic (Ch l) c = (c = l \<or> (ic \<and> fold_cp c = fold_cp l))"
| "item_match U ic (Rg lo hi) c =
     ((lo \<le> c \<and> c \<le> hi) \<or>
      (ic \<and> ((lo \<le> fold_cp c \<and> fold_cp c \<le> hi) \<or>
             (97 \<le> fold_cp c \<and> fold_cp c \<le> 122 \<and>
              lo \<le> fold_cp c - 32 \<and> fold_cp c - 32 \<le> hi))))"
| "item_match U ic CSpace c = is_space c"
| "item_match U ic CDigit c = is_decimal U c"

definition in_class :: "tables \<Rightarrow> bool \<Rightarrow> citem list \<Rightarrow> nat \<Rightarrow> bool" where
  "in_class U ic cs c = list_ex (\<lambda>i. item_match U ic i c) cs"

text \<open>
  A matcher state: the code point before the current position (\<open>None\<close> at the start of
  the string), the rest of the string, and the groups captured so far.
\<close>

datatype mstate = MS (before: "nat option") (rest: ustr) (groups: "nat \<Rightarrow> ustr option")

type_synonym cont = "mstate \<Rightarrow> mstate option"

text \<open>
  Repetition \<open>r{lo,hi}\<close>: the mandatory iterations first; then a greedy repetition tries
  one more iteration before the continuation and a lazy one the continuation first.  An
  optional iteration that consumes nothing is abandoned, as the engine does.  The first
  argument bounds the number of iterations by the length of the rest of the string.
\<close>

primrec rep_loop :: "nat \<Rightarrow> bool \<Rightarrow> nat \<Rightarrow> nat option \<Rightarrow> (cont \<Rightarrow> cont) \<Rightarrow> cont \<Rightarrow> cont" where
  "rep_loop 0 g lo hi body k s = (if lo = 0 then k s else None)"
| "rep_loop (Suc n) g lo hi body k s =
     (if hi = Some 0 then (if lo = 0 then k s else None)
      else if 0 < lo then
        body (rep_loop n g (lo - 1) (map_option (\<lambda>h. h - 1) hi) body k) s
      else if g then
        (case body (\<lambda>s'. if length (rest s') < length (rest s)
                          then rep_loop n g 0 (map_option (\<lambda>h. h - 1) hi) body k s'
                          else None) s of
           Some r \<Rightarrow> Some r
         | None \<Rightarrow> k s)
      else
        (case k s of
           Some r \<Rightarrow> Some r
         | None \<Rightarrow> body (\<lambda>s'. if length (rest s') < length (rest s)
                                then rep_loop n g 0 (map_option (\<lambda>h. h - 1) hi) body k s'
                                else None) s))"

primrec rmatch :: "tables \<Rightarrow> bool \<Rightarrow> rx \<Rightarrow> cont \<Rightarrow> cont" where
  "rmatch U ic (Sym cs) k s =
     (case rest s of
        [] \<Rightarrow> None
      | c # r \<Rightarrow> if in_class U ic cs c then k (MS (Some c) r (groups s)) else None)"
| "rmatch U ic (NSym cs) k s =
     (case rest s of
        [] \<Rightarrow> None
      | c # r \<Rightarrow> if in_class U ic cs c then None else k (MS (Some c) r (groups s)))"
| "rmatch U ic Dot k s =
     (case rest s of
        [] \<Rightarrow> None
      | c # r \<Rightarrow> if c = 10 then None else k (MS (Some c) r (groups s)))"
| "rmatch U ic Bol k s = (if before s = None then k s else None)"
| "rmatch U ic Eol k s = (if rest s = [] \<or> rest s = [10] then k s else None)"
| "rmatch U ic WordB k s =
     (if (case before s of None \<Rightarrow> False | Some c \<Rightarrow> is_word U c) \<noteq>
         (case rest s of [] \<Rightarrow> False | c # r \<Rightarrow> is_word U c)
      then k s else None)"
| "rmatch U ic Eps k s = k s"
| "rmatch U ic (Seq a b) k s = rmatch U ic a (rmatch U ic b k) s"
| "rmatch U ic (Alt a b) k s =
     (case rmatch U ic a k s of Some r \<Rightarrow> Some r | None \<Rightarrow> rmatch U ic b k s)"
| "rmatch U ic (Rep g lo hi r) k s =
     rep_loop (length (rest s) + lo + 1) g lo hi (rmatch U ic r) k s"
| "rmatch U ic (Grp n r) k s =
     rmatch U ic r
       (\<lambda>s'. k (MS (before s') (rest s')
                 ((groups s')(n \<mapsto> take (length (rest s) - length (rest s')) (rest s))))) s"
| "rmatch U ic (Ahead r) k s =
     (case rmatch U ic r Some s of None \<Rightarrow> None | Some r' \<Rightarrow> k s)"
| "rmatch U ic (NotBehind cs) k s =
     (case before s of
        None \<Rightarrow> k s
      | Some c \<Rightarrow> if in_class U ic cs c then None else k s)"

text \<open>\<open>re.match\<close>: a match at the start of the string.\<close>

definition re_match :: "tables \<Rightarrow> bool \<Rightarrow> rx \<Rightarrow> ustr \<Rightarrow> mstate option" where
  "re_match U ic r s = rmatch U ic r Some (MS None s Map.empty)"

text \<open>\<open>re.search\<close>: the match at the leftmost position that has one.\<close>

fun scan :: "tables \<Rightarrow> bool \<Rightarrow> rx \<Rightarrow> nat option \<Rightarrow> ustr \<Rightarrow> mstate option" where
  "scan U ic r p [] = rmatch U ic r Some (MS p [] Map.empty)"
| "scan U ic r p (c # cs) =
     (case rmatch U ic r Some (MS p (c # cs) Map.empty) of
        Some s' \<Rightarrow> Some s'
      | None \<Rightarrow> scan U ic r (Some c) cs)"

definition re_search :: "tables \<Rightarrow> bool \<Rightarrow> rx \<Rightarrow> ustr \<Rightarrow> mstate option" where
  "re_search U ic r s = scan U ic r None s"

text \<open>
  \<open>re.sub(pat, '', s)\<close>: every non-overlapping match, leftmost first, is deleted.  An
  empty match deletes nothing and the scan moves one code point on.
\<close>

function sub_from :: "tables \<Rightarrow> bool \<Rightarrow> rx \<Rightarrow> nat option \<Rightarrow> ustr \<Rightarrow> ustr" where
  "sub_from U ic r p [] = []"
| "sub_from U ic r p (c # cs) =
     (case rmatch U ic r Some (MS p (c # cs) Map.empty) of
        None \<Rightarrow> c # sub_from U ic r (Some c) cs
      | Some s' \<Rightarrow>
          if length (rest s') < length (c # cs)
          then sub_from U ic r (before s') (rest s')
          else c # sub_from U ic r (Some c) cs)"
  by pat_completeness auto
termination
  by (relation "measure (\<lambda>(U, ic, r, p, s). length s)") auto

definition re_sub :: "tables \<Rightarrow> bool \<Rightarrow> rx \<Rightarrow> ustr \<Rightarrow> ustr" where
  "re_sub U ic r s = sub_from U ic r None s"

text \<open>\<open>len(re.findall(pat, s))\<close>: the number of non-overlapping matches.\<close>

function count_from :: "tables \<Rightarrow> bool \<Rightarrow> rx \<Rightarrow> nat option \<Rightarrow> ustr \<Rightarrow> nat" where
  "count_from U ic r p [] =
     (case rmatch U ic r Some (MS p [] Map.empty) of None \<Rightarrow> 0 | Some s' \<Rightarrow> 1)"
| "count_from U ic r p (c # cs) =
     (case rmatch U ic r Some (MS p (c # cs) Map.empty) of
        None \<Rightarrow> count_from U ic r (Some c) cs
      | Some s' \<Rightarrow>
          if length (rest s') < length (c # cs)
          then Suc (count_from U ic r (before s') (rest s'))
          else Suc (count_from U ic r (Some c) cs))"
  by pat_completeness auto
termination
  by (relation "measure (\<lambda>(U, ic, r, p, s). length s)") auto

definition findall_len :: "tables \<Rightarrow> bool \<Rightarrow> rx \<Rightarrow> ustr \<Rightarrow> nat" where
  "findall_len U ic r s = count_from U ic r None s"

text \<open>Pattern building: a literal string, a sequence, \<open>r*\<close>, \<open>r+\<close>, \<open>r*?\<close>.\<close>

definition seqs :: "rx list \<Rightarrow> rx" where
  "seqs rs = foldr Seq rs Eps"

definition lit :: "string \<Rightarrow> rx" where
  "lit s = seqs (map (\<lambda>c. Sym [Ch (of_char c)]) s)"

definition alts :: "rx list \<Rightarrow> rx" where
  "alts rs = (case rs of [] \<Rightarrow> Eps | r # rs' \<Rightarrow> foldl Alt r rs')"

definition rstar :: "rx \<Rightarrow> rx" where
  "rstar r = Rep True 0 None r"

definition rplus :: "rx \<Rightarrow> rx" where
  "rplus r = Rep True 1 None r"

definition rlazy :: "rx \<Rightarrow> rx" where
  "rlazy r = Rep False 0 None r"

definition chr :: "string \<Rightarrow> citem" where
  "chr s = Ch (case s of [] \<Rightarrow> 0 | c # cs \<Rightarrow> of_char c)"

text \<open>
  A table for evaluating the program on concrete lines: it agrees with CPython on ASCII
  and on the Han and kana letters, and lower-cases nothing but what folds into ASCII.
\<close>

definition lower_cp :: "nat \<Rightarrow> ustr" where
  "lower_cp c =
     (if 65 \<le> c \<and> c \<le> 90 then [c + 32]
      else if c = 304 then [105, 775]
      else if c = 8490 then [107]
      else [c])"

definition U0 :: tables where
  "U0 = \<lparr> str_lower = (\<lambda>s. concat (map lower_cp s)),
          is_alnum = (\<lambda>c. (48 \<le> c \<and> c \<le> 57) \<or> (65 \<le> c \<and> c \<le> 90) \<or> (97 \<le> c \<and> c \<le> 122) \<or>
                         (0x3041 \<le> c \<and> c \<le> 0x3096) \<or> (0x30A1 \<le> c \<and> c \<le> 0x30FA) \<or>
                         (0x3400 \<le> c \<and> c \<le> 0x4DBF) \<or> (0x4E00 \<le> c \<and> c \<le> 0x9FFF)),
          is_decimal = (\<lambda>c. 48 \<le> c \<and> c \<le> 57) \<rparr>"

section \<open>The language detector\<close>

datatype language =
  UNKNOWN | ENGLISH | CHINESE | JAPANESE | KOREAN | FRENCH | GERMAN | SPANISH | RUSSIAN

text \<open>The \<open>value\<close> of a member of the enumeration \<open>Language\<close>.\<close>

fun lang_code :: "language \<Rightarrow> string" where
  "lang_code UNKNOWN = ''unknown''"
| "lang_code ENGLISH = ''en''"
| "lang_code CHINESE = ''zh''"
| "lang_code JAPANESE = ''ja''"
| "lang_code KOREAN = ''ko''"
| "lang_code FRENCH = ''fr''"
| "lang_code GERMAN = ''de''"
| "lang_code SPANISH = ''es''"
| "lang_code RUSSIAN = ''ru''"

definition latin_letter :: rx where
  "latin_letter = Sym [Rg 65 90, Rg 97 122]"

definition han_basic :: rx where
  "han_basic = Sym [Rg 0x4E00 0x9FFF]"

text \<open>\<open>self.language_patterns\<close>, in the insertion order of the dictionary.\<close>

definition language_patterns :: "(language \<times> rx list) list" where
  "language_patterns =
    [(ENGLISH,
        [latin_letter,
         seqs [WordB,
               Grp 1 (alts [lit ''the'', lit ''and'', lit ''you'', lit ''that'', lit ''have'',
                            lit ''for'', lit ''not'', lit ''with'', lit ''this'', lit ''but'']),
               WordB],
         seqs [WordB,
               Grp 1 (alts [lit ''is'', lit ''are'', lit ''was'', lit ''were'', lit ''be'',
                            lit ''been'', lit ''being'']),
               WordB]]),
     (CHINESE, [han_basic, Sym [Rg 0x3400 0x4DBF], Sym [Rg 0x20000 0x2A6DF]]),
     (JAPANESE, [Sym [Rg 0x3040 0x309F], Sym [Rg 0x30A0 0x30FF], han_basic]),
     (KOREAN, [Sym [Rg 0xAC00 0xD7AF], Sym [Rg 0x1100 0x11FF], Sym [Rg 0x3130 0x318F]]),
     (RUSSIAN, [Sym [Rg 0x0400 0x04FF]])]"

definition contains_chinese :: "tables \<Rightarrow> ustr \<Rightarrow> bool" where
  "contains_chinese U text = (re_search U False han_basic text \<noteq> None)"

text \<open>The body of the loop over \<open>language_patterns\<close>: the score of one language.\<close>

definition lang_score :: "tables \<Rightarrow> ustr \<Rightarrow> ustr \<Rightarrow> language \<times> rx list \<Rightarrow> rat" where
  "lang_score U text text_lower lp =
     of_nat (sum_list (map (\<lambda>pattern. findall_len U True pattern text_lower) (snd lp))) +
     (if fst lp = ENGLISH then of_nat (findall_len U False latin_letter text) * (1 / 2)
      else if fst lp = CHINESE then of_nat (findall_len U False han_basic text) * 2
      else 0)"

text \<open>\<open>max(items, key=...)\<close>: the first item whose key is maximal.\<close>

fun max_first :: "('a \<times> rat) \<Rightarrow> ('a \<times> rat) list \<Rightarrow> ('a \<times> rat)" where
  "max_first b [] = b"
| "max_first b (x # xs) = max_first (if snd b < snd x then x else b) xs"

definition scores :: "tables \<Rightarrow> ustr \<Rightarrow> (language \<times> rat) list" where
  "scores U text =
     map (\<lambda>lp. (fst lp, lang_score U text (str_lower U text) lp)) language_patterns"

definition detect_fallback :: "tables \<Rightarrow> ustr \<Rightarrow> language" where
  "detect_fallback U text =
     (if re_search U False latin_letter text \<noteq> None then ENGLISH else UNKNOWN)"

definition detect :: "tables \<Rightarrow> ustr \<Rightarrow> language" where
  "detect U text0 =
     (if text0 = [] \<or> py_strip text0 = [] then UNKNOWN
      else if contains_chinese U (py_strip text0) then CHINESE
      else (case scores U (py_strip text0) of
              [] \<Rightarrow> detect_fallback U (py_strip text0)
            | x # xs \<Rightarrow>
                if 0 < snd (max_first x xs) then fst (max_first x xs)
                else detect_fallback U (py_strip text0)))"

definition lang_map :: "string \<rightharpoonup> language" where
  "lang_map = map_of
    [(''zh-CN'', CHINESE), (''en'', ENGLISH), (''ja'', JAPANESE), (''ko'', KOREAN),
     (''fr'', FRENCH), (''de'', GERMAN), (''es'', SPANISH), (''ru'', RUSSIAN)]"

definition should_translate :: "tables \<Rightarrow> ustr \<Rightarrow> string \<Rightarrow> bool" where
  "should_translate U text target_lang =
     (if detect U text = (case lang_map target_lang of None \<Rightarrow> UNKNOWN | Some l \<Rightarrow> l)
      then False
      else if detect U text = UNKNOWN then True
      else True)"

section \<open>The message filter\<close>

text \<open>Shorthands for the classes that recur in the patterns of \<open>MessageFilter\<close>.\<close>

definition ws :: rx where
  "ws = Sym [CSpace]"

definition digits :: "nat \<Rightarrow> rx" where
  "digits n = Rep True n (Some n) (Sym [CDigit])"

definition sect :: nat where
  "sect = 167"

text \<open>\<open>[0-9a-fk-or]\<close> and \<open>[0-9A-FK-ORa-fk-or]\<close>.\<close>

definition code_lower :: "citem list" where
  "code_lower = [Rg 48 57, Rg 97 102, Rg 107 111, chr ''r'']"

definition code_both :: "citem list" where
  "code_both = [Rg 48 57, Rg 65 70, Rg 75 79, chr ''R'', Rg 97 102, Rg 107 111, chr ''r'']"

text \<open>\<open>[A-Za-z0-9_]\<close>.\<close>

definition ident_class :: "citem list" where
  "ident_class = [Rg 65 90, Rg 97 122, Rg 48 57, chr ''_'']"

text \<open>\<open>(?:\[[^\]]*\]\s*)*\<close>, the optional bracketed prefixes.\<close>

definition tag_prefixes :: rx where
  "tag_prefixes =
     rstar (seqs [Sym [chr ''[''], rstar (NSym [chr '']'']), Sym [chr '']''], rstar ws])"

text \<open>\<open>patterns_to_remove\<close> of \<open>clean_message\<close>, in order.\<close>

definition patterns_to_remove :: "rx list" where
  "patterns_to_remove =
    [seqs [Bol, lit ''['', digits 2, lit '':'', digits 2, lit '':'', digits 2, lit '']'', rstar ws],
     seqs [Bol, lit ''['', digits 4, lit ''-'', digits 2, lit ''-'', digits 2, lit '' '',
           digits 2, lit '':'', digits 2, lit '':'', digits 2, lit '']'', rstar ws],
     seqs [Bol, Sym [Ch sect], Sym code_lower, rstar ws],
     seqs [Bol, Grp 1 (Sym code_lower), Ahead (lit ''['')],
     seqs [lit ''['', rlazy Dot, lit ''INFO]:'', rstar ws],
     seqs [lit ''['', rlazy Dot, lit ''WARN]:'', rstar ws],
     seqs [lit ''['', rlazy Dot, lit ''ERROR]:'', rstar ws],
     seqs [lit ''[Client thread]:'', rstar ws],
     seqs [lit ''[Server thread]:'', rstar ws],
     seqs [lit ''[CHAT]'', rstar ws]]"

definition color_code :: rx where
  "color_code = seqs [Sym [Ch sect], Sym code_both]"

definition stray_code :: rx where
  "stray_code = seqs [NotBehind ident_class, Sym code_both, Ahead (lit ''['')]"

text \<open>The loop \<open>for pat in patterns_to_remove: cleaned = re.sub(pat, '', cleaned, flags=re.IGNORECASE)\<close>.\<close>

definition remove_all :: "tables \<Rightarrow> rx list \<Rightarrow> ustr \<Rightarrow> ustr" where
  "remove_all U pats message = foldl (\<lambda>cleaned pat. re_sub U True pat cleaned) message pats"

definition scrub :: "tables \<Rightarrow> ustr \<Rightarrow> ustr" where
  "scrub U message =
     re_sub U False stray_code
       (py_remove sect (re_sub U False color_code (remove_all U patterns_to_remove message)))"

text \<open>\<open>cleaned.strip() or message.strip()\<close>: the second when the first is empty.\<close>

definition clean_message :: "tables \<Rightarrow> ustr \<Rightarrow> ustr" where
  "clean_message U message =
     (if py_strip (scrub U message) \<noteq> [] then py_strip (scrub U message)
      else py_strip message)"



text \<open>\<open>^(Max|Total|Free)$\<close> and \<open>^<(Max|Total|Free)>\b\<close>, both used with \<open>re.IGNORECASE\<close>.\<close>

definition reserved_name :: rx where
  "reserved_name = seqs [Bol, Grp 1 (alts [lit ''Max'', lit ''Total'', lit ''Free'']), Eol]"



text \<open>\<open>m.group(n)\<close> of a match; every group of the patterns below takes part in every match.\<close>

definition group :: "mstate \<Rightarrow> nat \<Rightarrow> ustr" where
  "group s n = (case groups s n of None \<Rightarrow> [] | Some g \<Rightarrow> g)"



text \<open>The three patterns of \<open>extract_player_message\<close>.\<close>

definition extract_patterns :: "rx list" where
  "extract_patterns =
    [seqs [Bol, tag_prefixes, lit ''<'', Grp 1 (rplus (NSym [chr ''>''])), lit ''>'', rstar ws,
           Grp 2 (rstar Dot), Eol],
     seqs [Bol, lit ''['', rlazy Dot, lit '']'', rstar ws, lit ''['', rlazy Dot, lit ''/CHAT]:'',
           rstar ws, lit ''<'', Grp 1 (rplus (NSym [chr ''>''])), lit ''>'', rstar ws,
           Grp 2 (rstar Dot), Eol],
     seqs [Bol, tag_prefixes, Grp 1 (Rep True 3 (Some 16) (Sym ident_class)), rstar ws,
           lit '':'', rstar ws, Grp 2 (rstar Dot), Eol]]"

fun extract_loop :: "tables \<Rightarrow> rx list \<Rightarrow> ustr \<Rightarrow> ustr option \<times> ustr" where
  "extract_loop U [] cleaned = (None, cleaned)"
| "extract_loop U (pat # pats) cleaned =
     (case re_match U False pat cleaned of
        Some m \<Rightarrow>
          if re_match U True reserved_name (py_strip (group m 1)) \<noteq> None then (None, cleaned)
          else (Some (py_strip (group m 1)), py_strip (group m 2))
      | None \<Rightarrow> extract_loop U pats cleaned)"

definition extract_player_message :: "tables \<Rightarrow> ustr \<Rightarrow> ustr option \<times> ustr" where
  "extract_player_message U message = extract_loop U extract_patterns (clean_message U message)"

section \<open>The log monitor\<close>





section \<open>The translators and the main window\<close>

text \<open>\<open>s.replace(pat, '')\<close> and \<open>pat in s\<close> for a non-empty \<open>pat\<close>.\<close>

function remove_sub :: "string \<Rightarrow> string \<Rightarrow> string" where
  "remove_sub pat [] = []"
| "remove_sub pat (c # cs) =
     (if pat \<noteq> [] \<and> take (length pat) (c # cs) = pat
      then remove_sub pat (drop (length pat) (c # cs))
      else c # remove_sub pat cs)"
  by pat_completeness auto
termination
  by (relation "measure (\<lambda>(pat, s). length s)") auto

fun has_sub :: "string \<Rightarrow> string \<Rightarrow> bool" where
  "has_sub pat [] = (pat = [])"
| "has_sub pat (c # cs) = (take (length pat) (c # cs) = pat \<or> has_sub pat cs)"

text \<open>
  The error a translator returns is a non-empty message; the model names the causes.  The
  network request of a translator is the external engine: a function from the request to
  the text it returns or to the failure.  \<open>requests\<close> below is a ghost log of the requests
  made and \<open>engine_calls\<close> a ghost count of the calls of \<open>_translate_with_engine\<close>; the
  source keeps neither.
\<close>

datatype failure = MissingApiKey | EmptyText | ParseFailed | RequestFailed ustr

record request =
  via :: string
  query :: ustr
  from_lang :: string
  to_lang :: string

type_synonym network = "request \<Rightarrow> failure + ustr"

type_synonym outcome = "(ustr option \<times> failure option) \<times> request list"

definition auto_source :: "tables \<Rightarrow> ustr \<Rightarrow> string \<Rightarrow> string" where
  "auto_source U text src =
     (if src = ''auto'' \<and> detect U text \<noteq> UNKNOWN then lang_code (detect U text) else src)"

definition baidu_translate ::
  "tables \<Rightarrow> network \<Rightarrow> ustr \<times> ustr \<Rightarrow> ustr \<Rightarrow> string \<Rightarrow> string \<Rightarrow> outcome" where
  "baidu_translate U net keys text src dst =
     (if \<not> should_translate U text dst then ((Some text, None), [])
      else if fst keys = [] \<or> snd keys = [] then ((None, Some MissingApiKey), [])
      else if text = [] \<or> py_strip text = [] then ((None, Some EmptyText), [])
      else (case net \<lparr> via = ''baidu'', query = text, from_lang = auto_source U text src,
                         to_lang = dst \<rparr> of
              Inr translated_text \<Rightarrow>
                ((Some translated_text, None),
                 [\<lparr> via = ''baidu'', query = text, from_lang = auto_source U text src, to_lang = dst \<rparr>])
            | Inl e \<Rightarrow>
                ((None, Some e),
                 [\<lparr> via = ''baidu'', query = text, from_lang = auto_source U text src, to_lang = dst \<rparr>])))"

definition google_translate ::
  "tables \<Rightarrow> network \<Rightarrow> ustr \<Rightarrow> string \<Rightarrow> string \<Rightarrow> outcome" where
  "google_translate U net text src dst =
     (if \<not> should_translate U text dst then ((Some text, None), [])
      else if text = [] \<or> py_strip text = [] then ((None, Some EmptyText), [])
      else (case net \<lparr> via = ''google'', query = text, from_lang = auto_source U text src,
                         to_lang = dst \<rparr> of
              Inr translated_text \<Rightarrow>
                ((if translated_text \<noteq> [] then (Some translated_text, None)
                  else (None, Some ParseFailed)),
                 [\<lparr> via = ''google'', query = text, from_lang = auto_source U text src, to_lang = dst \<rparr>])
            | Inl e \<Rightarrow>
                ((None, Some e),
                 [\<lparr> via = ''google'', query = text, from_lang = auto_source U text src, to_lang = dst \<rparr>])))"

text \<open>
  Modelled from the spec: \<open>TranslationCache\<close> (module \<open>core.cache\<close>, which is not among the
  sources).  The spec has it a mapping from (normalized text, engine id, target language)
  to the translated text; the normalization is not given and is a parameter.
\<close>

type_synonym cache_map = "ustr \<times> string \<times> string \<rightharpoonup> ustr"

definition cache_get :: "(ustr \<Rightarrow> ustr) \<Rightarrow> cache_map \<Rightarrow> ustr \<Rightarrow> string \<Rightarrow> string \<Rightarrow> ustr option" where
  "cache_get normal c text eng target = c (normal text, eng, target)"

definition cache_set :: "(ustr \<Rightarrow> ustr) \<Rightarrow> cache_map \<Rightarrow> ustr \<Rightarrow> string \<Rightarrow> string \<Rightarrow> ustr \<Rightarrow> cache_map" where
  "cache_set normal c text eng target v = c((normal text, eng, target) \<mapsto> v)"

record payload =
  p_text :: ustr
  p_player :: "ustr option"
  p_raw :: ustr

record main_window =
  hide_all_messages :: bool
  show_all_logs :: bool
  no_translate_names :: bool
  cb_auto :: bool
  cb_detect :: bool
  lang :: string
  engine :: string
  baidu :: "(ustr \<times> ustr) option"
  cache :: cache_map
  pending_ui :: "(string \<times> ustr) list"
  auto_q :: "payload list"
  requests :: "request list"
  engine_calls :: nat

text \<open>\<open>self.auto_q = queue.Queue(maxsize=8)\<close>.\<close>

definition auto_q_maxsize :: nat where
  "auto_q_maxsize = 8"

definition mapped_target :: "string \<Rightarrow> string" where
  "mapped_target t =
     (if t \<in> set [''zh-CN'', ''en'', ''ja'', ''ko'', ''fr'', ''de'', ''es'', ''ru''] then t
      else ''zh-CN'')"

definition translate_with_engine ::
  "tables \<Rightarrow> network \<Rightarrow> main_window \<Rightarrow> ustr \<Rightarrow> string \<Rightarrow> string \<Rightarrow> outcome" where
  "translate_with_engine U net W text src dst =
     (case baidu W of
        Some keys \<Rightarrow>
          if engine W = ''baidu'' then baidu_translate U net keys text src ''zh''
          else google_translate U net text src (mapped_target dst)
      | None \<Rightarrow> google_translate U net text src (mapped_target dst))"

text \<open>
  \<open>_translate_core\<close>: the result \<open>(translated, error, cache_hit, from_lang)\<close> and the
  window after the call.
\<close>

type_synonym core_result = "ustr option \<times> failure option \<times> bool \<times> string"

definition smart_detected :: "tables \<Rightarrow> main_window \<Rightarrow> ustr \<Rightarrow> bool \<Rightarrow> language" where
  "smart_detected U W text smart = (if smart \<and> cb_detect W then detect U text else UNKNOWN)"

definition call_engine ::
  "tables \<Rightarrow> (ustr \<Rightarrow> ustr) \<Rightarrow> network \<Rightarrow> main_window \<Rightarrow> ustr \<Rightarrow> string \<Rightarrow> core_result \<times> main_window" where
  "call_engine U normal net W text src =
     (case translate_with_engine U net W text src (lang W) of
        ((translated, error), reqs) \<Rightarrow>
          ((translated, error, False, src),
           W \<lparr> cache :=
                 (case translated of
                    Some t \<Rightarrow>
                      if t \<noteq> [] \<and> error = None
                      then cache_set normal (cache W) text (engine W) (lang W) t
                      else cache W
                  | None \<Rightarrow> cache W),
               requests := requests W @ reqs,
               engine_calls := Suc (engine_calls W) \<rparr>))"

text \<open>The part of \<open>_translate_core\<close> after the cache has missed.\<close>

definition core_miss ::
  "tables \<Rightarrow> (ustr \<Rightarrow> ustr) \<Rightarrow> network \<Rightarrow> main_window \<Rightarrow> ustr \<Rightarrow> bool \<Rightarrow> core_result \<times> main_window" where
  "core_miss U normal net W text smart =
     (if smart \<and> smart_detected U W text smart \<noteq> UNKNOWN then
        (if lang_code (smart_detected U W text smart) = remove_sub ''-CN'' (lang W) \<or>
            (smart_detected U W text smart = CHINESE \<and> remove_sub ''-CN'' (lang W) = ''zh'')
         then ((Some text, None, False, lang_code (smart_detected U W text smart)), W)
         else call_engine U normal net W text (lang_code (smart_detected U W text smart)))
      else call_engine U normal net W text ''auto'')"

text \<open>\<open>if cache_hit:\<close> holds for a cached text that is not empty.\<close>

definition translate_core ::
  "tables \<Rightarrow> (ustr \<Rightarrow> ustr) \<Rightarrow> network \<Rightarrow> main_window \<Rightarrow> ustr \<Rightarrow> bool \<Rightarrow> core_result \<times> main_window" where
  "translate_core U normal net W text smart =
     (case cache_get normal (cache W) text (engine W) (lang W) of
        Some hit \<Rightarrow>
          if hit \<noteq> [] then ((Some hit, None, True, ''auto''), W)
          else core_miss U normal net W text smart
      | None \<Rightarrow> core_miss U normal net W text smart)"

text \<open>\<open>on_log\<close>; \<open>ts\<close> is the time stamp \<open>time.strftime("%H:%M:%S")\<close>.\<close>

definition is_chat_type :: "tables \<Rightarrow> ustr option \<Rightarrow> bool" where
  "is_chat_type U msg_type =
     (str_lower U (case msg_type of None \<Rightarrow> [] | Some t \<Rightarrow> t) = u ''chat'')"

definition monitor_line :: "ustr \<Rightarrow> ustr \<Rightarrow> string \<times> ustr" where
  "monitor_line ts line = (''monitor'', u ''['' @ ts @ u ''] '' @ line)"

definition log_display ::
  "tables \<Rightarrow> ustr \<Rightarrow> main_window \<Rightarrow> ustr \<Rightarrow> ustr option \<Rightarrow> ustr option \<Rightarrow> bool \<Rightarrow> main_window" where
  "log_display U ts W message msg_type raw_line keep_for_translation =
     (if hide_all_messages W then W
      else if show_all_logs W \<and> raw_line \<noteq> None \<and> raw_line \<noteq> Some [] then
        W \<lparr> pending_ui := pending_ui W @ [monitor_line ts (the raw_line)] \<rparr>
      else if keep_for_translation \<and> is_chat_type U msg_type then
        W \<lparr> pending_ui := pending_ui W @ [monitor_line ts message] \<rparr>
      else W)"

definition log_payload :: "tables \<Rightarrow> main_window \<Rightarrow> ustr \<Rightarrow> ustr option \<Rightarrow> payload" where
  "log_payload U W message msg_type =
     (if is_chat_type U msg_type \<and> no_translate_names W then
        (case extract_player_message U message of
           (Some player, content) \<Rightarrow>
             if player \<noteq> [] \<and> content \<noteq> []
             then \<lparr> p_text = content, p_player = Some player, p_raw = message \<rparr>
             else \<lparr> p_text = message, p_player = None, p_raw = message \<rparr>
         | (None, content) \<Rightarrow> \<lparr> p_text = message, p_player = None, p_raw = message \<rparr>)
      else \<lparr> p_text = message, p_player = None, p_raw = message \<rparr>)"

text \<open>\<open>put_nowait\<close> raises \<open>queue.Full\<close> on a full queue, which \<open>on_log\<close> catches and drops.\<close>

definition put_nowait :: "payload \<Rightarrow> main_window \<Rightarrow> main_window" where
  "put_nowait x W =
     (if length (auto_q W) < auto_q_maxsize then W \<lparr> auto_q := auto_q W @ [x] \<rparr> else W)"

definition on_log ::
  "tables \<Rightarrow> ustr \<Rightarrow> main_window \<Rightarrow> ustr \<Rightarrow> ustr option \<Rightarrow> ustr option \<Rightarrow> bool \<Rightarrow> main_window" where
  "on_log U ts W message msg_type raw_line keep_for_translation =
     (if keep_for_translation \<and> cb_auto W
      then put_nowait (log_payload U W message msg_type)
             (log_display U ts W message msg_type raw_line keep_for_translation)
      else log_display U ts W message msg_type raw_line keep_for_translation)"

text \<open>A burst of log lines, none of which is taken off the queue in between.\<close>

record log_event =
  ev_message :: ustr
  ev_type :: "ustr option"
  ev_raw :: "ustr option"
  ev_keep :: bool

fun on_logs :: "tables \<Rightarrow> ustr \<Rightarrow> main_window \<Rightarrow> log_event list \<Rightarrow> main_window" where
  "on_logs U ts W [] = W"
| "on_logs U ts W (e # es) =
     on_logs U ts (on_log U ts W (ev_message e) (ev_type e) (ev_raw e) (ev_keep e)) es"

section \<open>The dispatcher of the Tk application\<close>

record auto_item =
  item_text :: ustr
  item_detected :: language
  item_target :: string
  item_engine :: string

record translator =
  lang_var :: string
  detect_var :: bool
  current_engine :: string
  input_text :: ustr
  auto_last_msg :: "ustr option"
  auto_last_ts :: real
  auto_queue_limit :: nat
  auto_translate_queue :: "auto_item list"
  auto_pending :: "ustr set"

text \<open>The attributes \<open>__init__\<close> sets, for the given widgets' values.\<close>

definition translator_init :: "string \<Rightarrow> bool \<Rightarrow> translator" where
  "translator_init target det =
     \<lparr> lang_var = target, detect_var = det, current_engine = ''baidu'', input_text = [],
       auto_last_msg = None, auto_last_ts = 0, auto_queue_limit = 5,
       auto_translate_queue = [], auto_pending = {} \<rparr>"

definition target_lang_simple :: "string \<Rightarrow> string" where
  "target_lang_simple target = (if has_sub ''-CN'' target then remove_sub ''-CN'' target else target)"

definition same_language_skip :: "tables \<Rightarrow> translator \<Rightarrow> ustr \<Rightarrow> ustr \<Rightarrow> bool" where
  "same_language_skip U T message msg_type \<longleftrightarrow>
     detect_var T \<and>
     (lang_code (detect U message) = target_lang_simple (lang_var T) \<or>
      (detect U message = CHINESE \<and> target_lang_simple (lang_var T) = ''zh'')) \<and>
     msg_type \<noteq> u ''chat''"

text \<open>\<open>_auto_translate_message\<close>; \<open>now\<close> is the value of \<open>time.time()\<close>.\<close>

definition auto_translate_message ::
  "tables \<Rightarrow> real \<Rightarrow> translator \<Rightarrow> ustr \<Rightarrow> ustr \<Rightarrow> translator" where
  "auto_translate_message U now T message msg_type =
     (if same_language_skip U T message msg_type then T
      else if auto_last_msg T = Some message \<and> now - auto_last_ts T < 1 then
        T \<lparr> input_text := message \<rparr>
      else if auto_queue_limit T \<le> length (auto_translate_queue T) then
        T \<lparr> input_text := message, auto_last_msg := Some message, auto_last_ts := now \<rparr>
      else
        T \<lparr> input_text := message, auto_last_msg := Some message, auto_last_ts := now,
            auto_translate_queue :=
              auto_translate_queue T @
                [\<lparr> item_text = message, item_detected = detect U message,
                   item_target = lang_var T, item_engine = current_engine T \<rparr>],
            auto_pending := insert message (auto_pending T) \<rparr>)"

text \<open>A burst of messages with their arrival times, the worker taking nothing off the queue.\<close>

fun auto_translate_messages ::
  "tables \<Rightarrow> translator \<Rightarrow> (real \<times> ustr \<times> ustr) list \<Rightarrow> translator" where
  "auto_translate_messages U T [] = T"
| "auto_translate_messages U T (e # es) =
     auto_translate_messages U (auto_translate_message U (fst e) T (fst (snd e)) (snd (snd e))) es"

text \<open>The item \<open>_auto_translate_message\<close> puts on the queue for a message.\<close>

definition queued :: "tables \<Rightarrow> translator \<Rightarrow> ustr \<Rightarrow> auto_item" where
  "queued U T message =
     \<lparr> item_text = message, item_detected = detect U message, item_target = lang_var T,
       item_engine = current_engine T \<rparr>"

section \<open>Sample states\<close>

text \<open>
  A main window with automatic translation on, the Google engine and the target \<open>en\<close>;
  an engine that answers \<open>hello\<close> and one that is down; a chat line and a burst of
  distinct chat messages.
\<close>

definition W0 :: main_window where
  "W0 = \<lparr> hide_all_messages = False, show_all_logs = False, no_translate_names = True,
          cb_auto = True, cb_detect = True, lang = ''en'', engine = ''google'', baidu = None,
          cache = Map.empty, pending_ui = [], auto_q = [], requests = [], engine_calls = 0 \<rparr>"

definition net_hello :: network where
  "net_hello r = Inr (u ''hello'')"

definition net_down :: network where
  "net_down r = Inl (RequestFailed (u ''timed out''))"

definition nihao :: ustr where
  "nihao = [0x4F60, 0x597D]"

definition steve_hi :: log_event where
  "steve_hi = \<lparr> ev_message = u ''<Steve> hi'', ev_type = Some (u ''chat''), ev_raw = None,
               ev_keep = True \<rparr>"

definition burst :: "(real \<times> ustr \<times> ustr) list" where
  "burst = map (\<lambda>m. (0, u m, u ''chat'')) [''a'', ''b'', ''c'', ''d'', ''e'', ''f'']"

section \<open>Evaluating the model\<close>

text \<open>
  The repetition loop on a numeral bound, so that the simplifier can run the matcher on a
  concrete line.
\<close>

lemma rep_loop_numeral:
  "rep_loop (numeral v) g lo hi body k s =
     (if hi = Some 0 then (if lo = 0 then k s else None)
      else if 0 < lo then
        body (rep_loop (pred_numeral v) g (lo - 1) (map_option (\<lambda>h. h - 1) hi) body k) s
      else if g then
        (case body (\<lambda>s'. if length (rest s') < length (rest s)
                          then rep_loop (pred_numeral v) g 0 (map_option (\<lambda>h. h - 1) hi) body k s'
                          else None) s of
           Some r \<Rightarrow> Some r
         | None \<Rightarrow> k s)
      else
        (case k s of
           Some r \<Rightarrow> Some r
         | None \<Rightarrow> body (\<lambda>s'. if length (rest s') < length (rest s)
                                then rep_loop (pred_numeral v) g 0 (map_option (\<lambda>h. h - 1) hi) body k s'
                                else None) s))"
  by (simp add: numeral_eq_Suc)

lemmas rx_defs = seqs_def lit_def alts_def rstar_def rplus_def rlazy_def chr_def ws_def digits_def
  sect_def code_lower_def code_both_def ident_class_def tag_prefixes_def

lemmas ev_defs = u_def re_match_def re_search_def re_sub_def findall_len_def in_class_def
  is_space_def fold_cp_def is_word_def py_strip_def py_remove_def U0_def lower_cp_def group_def
  rep_loop_numeral

lemmas detect_defs = detect_def contains_chinese_def scores_def lang_score_def
  language_patterns_def latin_letter_def han_basic_def detect_fallback_def

section \<open>The tags the detector can return\<close>

lemma max_first_mem: "fst (max_first b xs) \<in> fst ` set (b # xs)"
  by (induction xs arbitrary: b) auto

lemma scores_langs:
  "map fst (scores U t) = [ENGLISH, CHINESE, JAPANESE, KOREAN, RUSSIAN]"
  by (simp add: scores_def language_patterns_def)

lemma detect_fallback_range: "detect_fallback U t \<in> {UNKNOWN, ENGLISH}"
  by (simp add: detect_fallback_def)

lemma detect_range: "detect U t \<in> {UNKNOWN, ENGLISH, CHINESE, JAPANESE, KOREAN, RUSSIAN}"
proof -
  have best: "fst (max_first x xs) \<in> {ENGLISH, CHINESE, JAPANESE, KOREAN, RUSSIAN}"
    if "scores U t' = x # xs" for t' x xs
  proof -
    have "fst (max_first x xs) \<in> set (map fst (scores U t'))"
      using max_first_mem [of x xs] that by simp
    then show ?thesis by (simp add: scores_langs)
  qed
  show ?thesis
    using detect_fallback_range [of U "py_strip t"]
    by (auto simp: detect_def dest: best split: list.splits)
qed

text \<open>
  Claim C10.  For every input, \<open>detect\<close> returns one of Unknown, English, Chinese,
  Japanese, Korean and Russian, so never French, German or Spanish; yet these three are
  members of the enumeration and targets that \<open>should_translate\<close> maps (\<open>fr\<close>, \<open>de\<close>,
  \<open>es\<close>).
\<close>

theorem detect_never_french_german_spanish:
  "detect U t \<in> {UNKNOWN, ENGLISH, CHINESE, JAPANESE, KOREAN, RUSSIAN} \<and>
   detect U t \<noteq> FRENCH \<and> detect U t \<noteq> GERMAN \<and> detect U t \<noteq> SPANISH \<and>
   lang_map ''fr'' = Some FRENCH \<and> lang_map ''de'' = Some GERMAN \<and> lang_map ''es'' = Some SPANISH"
  using detect_range [of U t] by (auto simp: lang_map_def)

section \<open>\<open>should_translate\<close> and a target outside its table\<close>

text \<open>
  Claim C1.  \<open>should_translate\<close> is to return false only when the detected tag equals the
  target tag, with the target \<open>zh\<close> standing for Chinese, and true whenever the detected
  tag is Unknown.  The table of \<open>should_translate\<close> has \<open>zh-CN\<close> and no \<open>zh\<close>, the
  target \<open>BaiduTranslator.translate\<close> passes: the target then stays Unknown, so a text
  with no detectable language (\<open>123\<close>) is compared equal to it and not translated, and
  a Chinese text is sent for translation into Chinese.
\<close>

theorem should_translate_unmapped_target:
  "lang_map ''zh'' = None \<and>
   detect U0 (u ''123'') = UNKNOWN \<and> should_translate U0 (u ''123'') ''zh'' = False \<and>
   detect U0 [0x4F60, 0x597D] = CHINESE \<and> should_translate U0 [0x4F60, 0x597D] ''zh'' = True"
  by (simp add: should_translate_def lang_map_def detect_defs rx_defs ev_defs)

section \<open>The reserved names and \<open>is_player_chat\<close>\<close>


section \<open>The offset of the log monitor\<close>




section \<open>The translation cache\<close>

lemma call_engine_cached:
  "call_engine U normal net W t src = ((Some tr, None, hit, src'), W') \<Longrightarrow> tr \<noteq> [] \<Longrightarrow>
     cache_get normal (cache W') t (engine W') (lang W') = Some tr"
  by (auto simp: call_engine_def cache_get_def cache_set_def split: prod.splits)

lemma core_miss_cached:
  "core_miss U normal net W t smart = ((Some tr, None, hit, src), W') \<Longrightarrow> tr \<noteq> [] \<Longrightarrow>
     engine_calls W' \<noteq> engine_calls W \<Longrightarrow>
     cache_get normal (cache W') t (engine W') (lang W') = Some tr"
  by (auto simp: core_miss_def dest: call_engine_cached split: if_splits)

lemma core_miss_no_hit:
  "core_miss U normal net W t smart = ((tr, err, hit, src), W') \<Longrightarrow> \<not> hit"
  by (auto simp: core_miss_def call_engine_def split: if_splits prod.splits)

text \<open>
  Claim C4.  After a successful translation of a text (the request was resolved from the
  cache, or the engine was called, and it gave a text that is not empty and no error), the
  same request made next returns the cached text with \<open>cache_hit\<close> true and \<open>from_lang\<close>
  \<open>auto\<close>, and leaves the window as it is: the engine is not called and no request is
  made, whatever the engine would answer.
\<close>

theorem cached_after_success:
  assumes first: "translate_core U normal net W t smart = ((Some tr, None, hit, src), W')"
    and nonempty: "tr \<noteq> []"
    and resolved: "hit \<or> engine_calls W' \<noteq> engine_calls W"
  shows "translate_core U normal net' W' t smart' = ((Some tr, None, True, ''auto''), W')"
proof -
  have "cache_get normal (cache W') t (engine W') (lang W') = Some tr"
  proof (cases "cache_get normal (cache W) t (engine W) (lang W)")
    case None
    with first have m: "core_miss U normal net W t smart = ((Some tr, None, hit, src), W')"
      by (simp add: translate_core_def)
    with core_miss_no_hit [OF m] resolved nonempty show ?thesis
      by (auto dest: core_miss_cached)
  next
    case (Some v)
    show ?thesis
    proof (cases "v = []")
      case True
      with Some first have m: "core_miss U normal net W t smart = ((Some tr, None, hit, src), W')"
        by (simp add: translate_core_def)
      with core_miss_no_hit [OF m] resolved nonempty show ?thesis
        by (auto dest: core_miss_cached)
    next
      case False
      with Some first show ?thesis by (auto simp: translate_core_def)
    qed
  qed
  with nonempty show ?thesis by (simp add: translate_core_def)
qed

lemma sample_translation:
  "translate_core U0 id net_hello W0 nihao True =
     ((Some (u ''hello''), None, False, ''zh''),
      W0 \<lparr> cache := [(nihao, ''google'', ''en'') \<mapsto> u ''hello''],
           requests := [\<lparr> via = ''google'', query = nihao, from_lang = ''zh'', to_lang = ''en'' \<rparr>],
           engine_calls := 1 \<rparr>)"
  by (simp add: translate_core_def core_miss_def call_engine_def translate_with_engine_def
      google_translate_def smart_detected_def cache_get_def cache_set_def W0_def net_hello_def
      nihao_def mapped_target_def auto_source_def should_translate_def lang_map_def
      detect_defs rx_defs ev_defs)

theorem cached_after_success_witness:
  "translate_core U0 id net_down
     (W0 \<lparr> cache := [(nihao, ''google'', ''en'') \<mapsto> u ''hello''],
          requests := [\<lparr> via = ''google'', query = nihao, from_lang = ''zh'', to_lang = ''en'' \<rparr>],
          engine_calls := 1 \<rparr>) nihao True =
     ((Some (u ''hello''), None, True, ''auto''),
      W0 \<lparr> cache := [(nihao, ''google'', ''en'') \<mapsto> u ''hello''],
           requests := [\<lparr> via = ''google'', query = nihao, from_lang = ''zh'', to_lang = ''en'' \<rparr>],
           engine_calls := 1 \<rparr>)"
proof -
  have "u ''hello'' \<noteq> []" by (simp add: u_def)
  moreover have "False \<or>
      engine_calls (W0 \<lparr> cache := [(nihao, ''google'', ''en'') \<mapsto> u ''hello''],
           requests := [\<lparr> via = ''google'', query = nihao, from_lang = ''zh'', to_lang = ''en'' \<rparr>],
           engine_calls := 1 \<rparr>) \<noteq> engine_calls W0"
    by (simp add: W0_def)
  ultimately show ?thesis
    by (rule cached_after_success [OF sample_translation])
qed

section \<open>The queues of the two dispatchers\<close>

lemma take_take_append: "take n (take n xs @ ys) = take n (xs @ ys)"
proof (induction xs arbitrary: n)
  case Nil
  then show ?case by simp
next
  case (Cons x xs)
  then show ?case by (cases n) simp_all
qed

subsection \<open>The main window\<close>

lemma log_display_fields:
  "auto_q (log_display U ts W m ty raw keep) = auto_q W"
  "cb_auto (log_display U ts W m ty raw keep) = cb_auto W"
  "no_translate_names (log_display U ts W m ty raw keep) = no_translate_names W"
  by (simp_all add: log_display_def)

lemma on_log_fields:
  "cb_auto (on_log U ts W m ty raw keep) = cb_auto W"
  "no_translate_names (on_log U ts W m ty raw keep) = no_translate_names W"
  by (simp_all add: on_log_def put_nowait_def log_display_fields)

lemma log_payload_cong:
  "no_translate_names W' = no_translate_names W \<Longrightarrow> log_payload U W' m ty = log_payload U W m ty"
  by (simp add: log_payload_def)

lemma on_log_queue:
  "cb_auto W \<Longrightarrow> keep \<Longrightarrow> length (auto_q W) \<le> auto_q_maxsize \<Longrightarrow>
     auto_q (on_log U ts W m ty raw keep) = take auto_q_maxsize (auto_q W @ [log_payload U W m ty])"
  by (auto simp: on_log_def put_nowait_def log_display_fields
      log_payload_cong [of "log_display U ts W m ty raw True" W])

lemma on_logs_queue:
  "cb_auto W \<Longrightarrow> list_all ev_keep es \<Longrightarrow> length (auto_q W) \<le> auto_q_maxsize \<Longrightarrow>
     auto_q (on_logs U ts W es) =
       take auto_q_maxsize (auto_q W @ map (\<lambda>e. log_payload U W (ev_message e) (ev_type e)) es)"
proof (induction es arbitrary: W)
  case Nil
  then show ?case by simp
next
  case (Cons e es)
  let ?W = "on_log U ts W (ev_message e) (ev_type e) (ev_raw e) True"
  from Cons.prems have k: "ev_keep e" and ks: "list_all ev_keep es" by simp_all
  have q: "auto_q ?W = take auto_q_maxsize (auto_q W @ [log_payload U W (ev_message e) (ev_type e)])"
    using Cons.prems by (simp add: on_log_queue)
  have p: "log_payload U ?W m ty = log_payload U W m ty" for m ty
    by (rule log_payload_cong) (simp add: on_log_fields)
  have len: "length (auto_q ?W) \<le> auto_q_maxsize"
    by (simp add: q)
  have "auto_q (on_logs U ts ?W es) =
      take auto_q_maxsize (auto_q ?W @ map (\<lambda>e. log_payload U ?W (ev_message e) (ev_type e)) es)"
    using Cons.prems(1) ks len by (intro Cons.IH) (simp_all add: on_log_fields)
  also have "\<dots> = take auto_q_maxsize
      (take auto_q_maxsize (auto_q W @ [log_payload U W (ev_message e) (ev_type e)]) @
       map (\<lambda>e. log_payload U W (ev_message e) (ev_type e)) es)"
    by (simp only: p q)
  also have "\<dots> = take auto_q_maxsize
      ((auto_q W @ [log_payload U W (ev_message e) (ev_type e)]) @
       map (\<lambda>e. log_payload U W (ev_message e) (ev_type e)) es)"
    by (rule take_take_append)
  finally show ?case
    by (simp add: k del: take_append)
qed

subsection \<open>The Tk application\<close>

lemma atm_fields:
  "lang_var (auto_translate_message U now T m ty) = lang_var T"
  "current_engine (auto_translate_message U now T m ty) = current_engine T"
  "auto_queue_limit (auto_translate_message U now T m ty) = auto_queue_limit T"
  by (simp_all add: auto_translate_message_def)

lemma queued_cong:
  "lang_var T' = lang_var T \<Longrightarrow> current_engine T' = current_engine T \<Longrightarrow>
     queued U T' m = queued U T m"
  by (simp add: queued_def)

lemma atm_chat:
  "auto_last_msg T \<noteq> Some m \<Longrightarrow> length (auto_translate_queue T) \<le> auto_queue_limit T \<Longrightarrow>
     auto_translate_queue (auto_translate_message U now T m (u ''chat'')) =
       take (auto_queue_limit T) (auto_translate_queue T @ [queued U T m]) \<and>
     auto_last_msg (auto_translate_message U now T m (u ''chat'')) = Some m"
  by (auto simp: auto_translate_message_def same_language_skip_def queued_def)

lemma atms_chat:
  "distinct_adj (auto_last_msg T # map (\<lambda>e. Some (fst (snd e))) es) \<Longrightarrow>
   list_all (\<lambda>e. snd (snd e) = u ''chat'') es \<Longrightarrow>
   length (auto_translate_queue T) \<le> auto_queue_limit T \<Longrightarrow>
     auto_translate_queue (auto_translate_messages U T es) =
       take (auto_queue_limit T) (auto_translate_queue T @ map (\<lambda>e. queued U T (fst (snd e))) es)"
proof (induction es arbitrary: T)
  case Nil
  then show ?case by simp
next
  case (Cons e es)
  obtain now m ty where e: "e = (now, m, ty)" by (cases e) auto
  let ?T = "auto_translate_message U now T m (u ''chat'')"
  from Cons.prems e have ty: "ty = u ''chat''"
    and tys: "list_all (\<lambda>e. snd (snd e) = u ''chat'') es"
    and new: "auto_last_msg T \<noteq> Some m"
    and adj: "distinct_adj (Some m # map (\<lambda>e. Some (fst (snd e))) es)"
    by simp_all
  have step: "auto_translate_queue ?T =
      take (auto_queue_limit T) (auto_translate_queue T @ [queued U T m])"
    and last: "auto_last_msg ?T = Some m"
    using atm_chat [OF new Cons.prems(3), of U now] by simp_all
  have q: "queued U ?T m' = queued U T m'" for m'
    by (rule queued_cong) (simp_all add: atm_fields)
  have "auto_translate_queue (auto_translate_messages U ?T es) =
      take (auto_queue_limit ?T)
        (auto_translate_queue ?T @ map (\<lambda>e. queued U ?T (fst (snd e))) es)"
    using adj tys by (intro Cons.IH) (simp_all add: last step atm_fields)
  also have "\<dots> = take (auto_queue_limit T)
      (take (auto_queue_limit T) (auto_translate_queue T @ [queued U T m]) @
       map (\<lambda>e. queued U T (fst (snd e))) es)"
    by (simp only: q step atm_fields)
  also have "\<dots> = take (auto_queue_limit T)
      ((auto_translate_queue T @ [queued U T m]) @ map (\<lambda>e. queued U T (fst (snd e))) es)"
    by (rule take_take_append)
  finally show ?case
    by (simp add: e ty del: take_append)
qed

lemma distinct_adj_map_Some:
  "distinct_adj (map f es) \<Longrightarrow> distinct_adj (map (\<lambda>e. Some (f e)) es)"
  by (induction es rule: induct_list012) simp_all

lemma distinct_adj_Some:
  "distinct_adj (map f es) \<Longrightarrow> distinct_adj (None # map (\<lambda>e. Some (f e)) es)"
  using distinct_adj_map_Some [of f es] by (cases es) simp_all

text \<open>
  Claim C5.  Enqueueing never blocks and never raises (the functions are total and return
  the next state), and a burst that is not drained fills the queue to its capacity and no
  further: \<open>on_log\<close> keeps the first 8 payloads of the lines it is to translate, and
  \<open>_auto_translate_message\<close> the first 5 of a burst of chat messages of which no two in a
  row are the same (its debounce is a separate matter); every later one is dropped.
\<close>

theorem enqueue_drops_beyond_capacity:
  assumes "cb_auto W" and "list_all ev_keep es" and "auto_q W = []"
    and "distinct_adj (map (\<lambda>e. fst (snd e)) ms)"
    and "list_all (\<lambda>e. snd (snd e) = u ''chat'') ms"
  shows "auto_q (on_logs U ts W es) =
           take 8 (map (\<lambda>e. log_payload U W (ev_message e) (ev_type e)) es) \<and>
         length (auto_q (on_logs U ts W es)) = min (length es) 8 \<and>
         auto_translate_queue (auto_translate_messages U (translator_init target det) ms) =
           take 5 (map (\<lambda>e. queued U (translator_init target det) (fst (snd e))) ms) \<and>
         length (auto_translate_queue (auto_translate_messages U (translator_init target det) ms)) =
           min (length ms) 5"
proof -
  have a: "auto_q (on_logs U ts W es) =
      take 8 (map (\<lambda>e. log_payload U W (ev_message e) (ev_type e)) es)"
    using on_logs_queue [of W es U ts] assms(1-3) by (simp add: auto_q_maxsize_def)
  have "distinct_adj (auto_last_msg (translator_init target det) #
      map (\<lambda>e. Some (fst (snd e))) ms)"
    using distinct_adj_Some [OF assms(4)] by (simp add: translator_init_def)
  then have b: "auto_translate_queue (auto_translate_messages U (translator_init target det) ms) =
      take 5 (map (\<lambda>e. queued U (translator_init target det) (fst (snd e))) ms)"
    using atms_chat [of "translator_init target det" ms U] assms(5)
    by (simp add: translator_init_def)
  show ?thesis
    unfolding a b by (simp add: min.commute)
qed

lemma sample_burst:
  "distinct_adj (map (\<lambda>e. fst (snd e)) burst) \<and>
   list_all (\<lambda>e. snd (snd e) = u ''chat'') burst \<and> length burst = 6"
  by (simp add: burst_def u_def)

theorem enqueue_drops_beyond_capacity_witness:
  "length (auto_q (on_logs U0 [] W0 (replicate 9 steve_hi))) = 8 \<and>
   length (auto_translate_queue (auto_translate_messages U0 (translator_init ''zh-CN'' True) burst)) = 5"
proof -
  have 1: "cb_auto W0" and 3: "auto_q W0 = []"
    by (simp_all add: W0_def)
  have 2: "list_all ev_keep (replicate 9 steve_hi)"
    by (simp add: list_all_iff steve_hi_def)
  from sample_burst have 4: "distinct_adj (map (\<lambda>e. fst (snd e)) burst)"
    and 5: "list_all (\<lambda>e. snd (snd e) = u ''chat'') burst" and 6: "length burst = 6"
    by simp_all
  from enqueue_drops_beyond_capacity [OF 1 2 3 4 5, of U0 "[]" "''zh-CN''" True] 6
  show ?thesis by simp
qed

text \<open>
  Claim C6, as amended.  In the dispatcher of the Tk application
  (\<open>_auto_translate_message\<close>), when a message is put on the queue and the same message
  arrives again less than one second later, the second is suppressed: the queue holds the
  one item.
\<close>

theorem debounce_identical_message:
  assumes accepted:
      "auto_translate_queue (auto_translate_message U t1 T m ty) \<noteq> auto_translate_queue T"
    and window: "t2 - t1 < 1"
  shows "auto_translate_queue (auto_translate_message U t1 T m ty) =
           auto_translate_queue T @ [queued U T m] \<and>
         auto_translate_queue
           (auto_translate_message U t2 (auto_translate_message U t1 T m ty) m ty') =
           auto_translate_queue (auto_translate_message U t1 T m ty)"
proof -
  let ?T = "auto_translate_message U t1 T m ty"
  from accepted have q: "auto_translate_queue ?T = auto_translate_queue T @ [queued U T m]"
    and l: "auto_last_msg ?T = Some m" and t: "auto_last_ts ?T = t1"
    by (auto simp: auto_translate_message_def queued_def split: if_splits)
  from l t window
  have "auto_translate_queue (auto_translate_message U t2 ?T m ty') = auto_translate_queue ?T"
    unfolding auto_translate_message_def [of U t2 ?T] by simp
  with q show ?thesis by simp
qed

theorem debounce_identical_message_witness:
  "length (auto_translate_queue
     (auto_translate_message U0 (1 / 2)
        (auto_translate_message U0 0 (translator_init ''zh-CN'' False) (u ''hi'') (u ''chat''))
        (u ''hi'') (u ''chat''))) = 1"
proof -
  have "auto_translate_queue
      (auto_translate_message U0 0 (translator_init ''zh-CN'' False) (u ''hi'') (u ''chat'')) \<noteq>
      auto_translate_queue (translator_init ''zh-CN'' False)"
    by (simp add: auto_translate_message_def same_language_skip_def translator_init_def)
  moreover have "(1 / 2 :: real) - 0 < 1" by simp
  ultimately show ?thesis
    using debounce_identical_message
      [of U0 0 "translator_init ''zh-CN'' False" "u ''hi''" "u ''chat''" "1 / 2" "u ''chat''"]
    by (simp add: translator_init_def)
qed

text \<open>
  The claim as stated covers every dispatcher.  \<open>on_log\<close> of the main window has no
  debounce: the same chat line handed to it twice in a row is queued twice.
\<close>

theorem on_log_queues_identical_lines:
  "auto_q (on_logs U0 (u ''12:00:00'') W0 [steve_hi, steve_hi]) =
     [\<lparr> p_text = u ''hi'', p_player = Some (u ''Steve''), p_raw = u ''<Steve> hi'' \<rparr>,
      \<lparr> p_text = u ''hi'', p_player = Some (u ''Steve''), p_raw = u ''<Steve> hi'' \<rparr>]"
  by (simp add: on_log_def put_nowait_def log_display_def log_payload_def is_chat_type_def
      auto_q_maxsize_def W0_def steve_hi_def monitor_line_def
      extract_player_message_def extract_patterns_def reserved_name_def clean_message_def
      scrub_def remove_all_def patterns_to_remove_def color_code_def stray_code_def
      rx_defs ev_defs)

section \<open>The Han shortcut of the detector\<close>

lemma scan_Sym:
  "(scan U ic (Sym cs) p t \<noteq> None) = list_ex (in_class U ic cs) t"
  by (induction t arbitrary: p) auto

lemma dropWhile_keeps: "x \<in> set xs \<Longrightarrow> \<not> P x \<Longrightarrow> x \<in> set (dropWhile P xs)"
  by (induction xs) auto

lemma py_strip_keeps: "x \<in> set s \<Longrightarrow> \<not> is_space x \<Longrightarrow> x \<in> set (py_strip s)"
  by (simp add: py_strip_def dropWhile_keeps)

lemma han_not_space: "0x4E00 \<le> c \<Longrightarrow> \<not> is_space c"
  by (simp add: is_space_def)

text \<open>
  Claim C3, as amended.  For every text in which a code point of U+4E00..U+9FFF is
  present, \<open>detect\<close> returns the Chinese tag, whatever else the text contains.
\<close>

theorem han_basic_detects_chinese:
  assumes "c \<in> set t" and "0x4E00 \<le> c" and "c \<le> 0x9FFF"
  shows "detect U t = CHINESE"
proof -
  from assms have m: "c \<in> set (py_strip t)"
    by (simp add: py_strip_keeps han_not_space)
  from assms(2,3) have "in_class U False [Rg 0x4E00 0x9FFF] c"
    by (simp add: in_class_def)
  with m have "list_ex (in_class U False [Rg 0x4E00 0x9FFF]) (py_strip t)"
    by (auto simp: list_ex_iff)
  then have "scan U False (Sym [Rg 0x4E00 0x9FFF]) None (py_strip t) \<noteq> None"
    by (simp only: scan_Sym)
  then have "contains_chinese U (py_strip t)"
    by (simp add: contains_chinese_def re_search_def han_basic_def del: not_None_eq)
  moreover from m assms(1) have "t \<noteq> []" and "py_strip t \<noteq> []"
    by auto
  ultimately show ?thesis
    by (simp add: detect_def)
qed

theorem han_basic_detects_chinese_witness:
  "detect U0 ([0x3042] @ [0x65E5, 0x672C] @ [0x3044]) = CHINESE"
  using han_basic_detects_chinese [of "0x65E5" "[0x3042] @ [0x65E5, 0x672C] @ [0x3044]" U0]
  by simp

text \<open>
  The claim as stated covers every Han code point.  The shortcut tests the block
  U+4E00..U+9FFF alone: U+3400, of CJK Extension A (which \<open>language_patterns\<close> lists as
  Chinese), followed by two hiragana is scored, and the Japanese tag wins.
\<close>

theorem han_extension_not_chinese:
  "detect U0 [0x3400, 0x3042, 0x3044] = JAPANESE"
  by (simp add: detect_defs rx_defs ev_defs)

end
